theory Spec2Isabelle
  imports Main "HOL-Library.Word"
begin

section \<open>The packet pipeline of pktdump\<close>

text \<open>
  A shallow embedding of \<^verbatim>\<open>pkt_pipeline.h\<close>, \<^verbatim>\<open>pkt_pipeline.c\<close>,
  \<^verbatim>\<open>pkt_inputfile.c\<close> and the end of \<^verbatim>\<open>main\<close> in \<^verbatim>\<open>pktdump.c\<close>.
  C structs are records, arrays of fixed size are functions from the index (the code
  guards every index with \<^verbatim>\<open>PKT_PIPELINE_MAX\<close>), a pointer that may be NULL is an
  \<open>option\<close>, and a pointer the code only stores is an address (\<open>nat\<close>, 0 for NULL).
  The counts \<^verbatim>\<open>pkt_stage_next\<close> and \<^verbatim>\<open>pkt_extent\<close> are natural numbers: the code
  compares a count with \<^verbatim>\<open>PKT_PIPELINE_MAX\<close> before it uses or increments it, so no
  unsigned arithmetic of the pipeline wraps around. The lengths and times of a frame
  are 32-bit words, as in the native header.
\<close>

subsection \<open>Data model (pkt_pipeline.h)\<close>

type_synonym u8 = "8 word"
type_synonym u16 = "16 word"
type_synonym u32 = "32 word"

definition PKT_PIPELINE_MAX :: nat where
  "PKT_PIPELINE_MAX = 8"

text \<open>
  \<^verbatim>\<open>struct tpacket3_hdr\<close> comes from \<^verbatim>\<open>linux/if_packet.h\<close>: 32-bit unsigned
  fields and two 16-bit offsets. The variant part and the padding are zeroed by the
  adapter and never read, so they are left out.
\<close>

record tpacket3_hdr =
  tp_next_offset :: u32
  tp_sec :: u32
  tp_nsec :: u32
  tp_snaplen :: u32
  tp_len :: u32
  tp_status :: u32
  tp_mac :: u16
  tp_net :: u16

text \<open>
  The storage of one frame: \<^verbatim>\<open>buffer1\<close> of \<^verbatim>\<open>pktdump_process_one\<close>, with the
  header laid over its first bytes. \<open>fb_mem\<close> gives the byte at each offset of the
  buffer (offsets below the size of the header are shadowed by \<open>fb_hdr\<close>).
\<close>

record frame_buffer =
  fb_hdr :: tpacket3_hdr
  fb_mem :: "nat \<Rightarrow> u8"

text \<open>
  \<^verbatim>\<open>pkt_pipeline_hdr\<close>: the descriptor of one packet. The pointer to the native header
  is followed to the buffer it heads; the scratch slots are untyped pointers.
\<close>

record pipeline_hdr =
  pkt_pipeline_hdr :: frame_buffer
  pkt_pipeline_extra :: "nat \<Rightarrow> nat"

text \<open>\<^verbatim>\<open>pkt_pipeline_list\<close>: an entry of the array is NULL once a stage has claimed it.\<close>

record pkt_pipeline_list =
  pkt_list :: "pipeline_hdr option list"
  pkt_extent :: nat

text \<open>
  \<^verbatim>\<open>pkt_pipeline_instance\<close>. \<open>pi_stage\<close> points to a stage descriptor (a key of the
  stage table below) or is NULL.
\<close>

record pkt_pipeline_instance =
  pi_stage :: "nat option"
  pi_stage_info :: nat
  pi_stage_num :: int

record pkt_pipeline =
  pkt_dump :: nat
  pkt_datalink :: int
  pkt_master_list :: pkt_pipeline_list
  pkt_stage_next :: nat
  pkt_stages :: "nat \<Rightarrow> pkt_pipeline_instance"

record pkt_pipeline_source =
  ps_pipeline :: pkt_pipeline
  ps_name :: nat
  ps_pcap_reader :: "nat option"

text \<open>
  What a stage operation can read and write: the source object it is handed (through
  \<^verbatim>\<open>pp\<close>, \<^verbatim>\<open>pi\<close> and \<^verbatim>\<open>packlist\<close>, which all point into it) and everything
  else of the process it touches (its private allocations, standard output), the
  \<open>world\<close>.
\<close>

record 'w machine =
  src :: pkt_pipeline_source
  world :: 'w

definition pp :: "'w machine \<Rightarrow> pkt_pipeline" where
  "pp s = ps_pipeline (src s)"

definition pp_upd :: "(pkt_pipeline \<Rightarrow> pkt_pipeline) \<Rightarrow> 'w machine \<Rightarrow> 'w machine" where
  "pp_upd f s = s\<lparr>src := (src s)\<lparr>ps_pipeline := f (ps_pipeline (src s))\<rparr>\<rparr>"

text \<open>
  \<^verbatim>\<open>pkt_pipeline_stage\<close>. A stage operation is a C function: it takes the state and the
  index of its instance (\<^verbatim>\<open>pi\<close> is \<^verbatim>\<open>&pp->pkt_stages[i]\<close>), and returns its
  \<^verbatim>\<open>int\<close> code with the state it leaves. An absent operation is a NULL function
  pointer. Stage descriptors are static objects that the engine only reads; the stage
  table maps the address of each to its contents.
\<close>

type_synonym 'w stage_op = "'w machine \<Rightarrow> nat \<Rightarrow> int \<times> 'w machine"

record 'w pkt_pipeline_stage =
  pp_name :: string
  pp_init :: "'w stage_op option"
  pp_process :: "'w stage_op option"

type_synonym 'w stage_table = "nat \<Rightarrow> 'w pkt_pipeline_stage"

subsection \<open>The capture callback (pkt_inputfile.c, pktdump_process_one)\<close>

text \<open>
  \<^verbatim>\<open>struct pcap_pkthdr\<close> of libpcap: the lengths are \<^verbatim>\<open>bpf_u_int32\<close>; the two
  parts of the timestamp are signed \<^verbatim>\<open>long\<close> values, kept here as integers.
\<close>

record pcap_pkthdr =
  ts_sec :: int
  ts_usec :: int
  caplen :: u32
  len :: u32

text \<open>
  One call of the callback: the header and the bytes libpcap hands over (\<open>cb_bytes k\<close>
  is the byte at \<^verbatim>\<open>bytes[k]\<close>), and the indeterminate contents of the callback's
  automatic variables \<^verbatim>\<open>buffer1\<close> and \<^verbatim>\<open>pkt0\<close>, which the code does not
  initialise.
\<close>

record delivery =
  cb_h :: pcap_pkthdr
  cb_bytes :: "nat \<Rightarrow> u8"
  cb_buffer1 :: "nat \<Rightarrow> u8"
  cb_pkt0_extra :: "nat \<Rightarrow> nat"

text \<open>Lines 84-85: the captured length, clamped.\<close>

definition clamp_caplen :: "u32 \<Rightarrow> u32" where
  "clamp_caplen c = (if c > 65536 then 65536 else c)"

text \<open>
  Lines 81-91: the header is zeroed, then filled. The conversion of a \<^verbatim>\<open>long\<close> to
  a 32-bit unsigned field is \<open>word_of_int\<close>.
\<close>

definition frame_hdr :: "pcap_pkthdr \<Rightarrow> tpacket3_hdr" where
  "frame_hdr h =
     \<lparr>tp_next_offset = 0,
      tp_sec = word_of_int (ts_sec h),
      tp_nsec = word_of_int (ts_usec h),
      tp_snaplen = clamp_caplen (caplen h),
      tp_len = len h,
      tp_status = 0,
      tp_mac = 2048,
      tp_net = 0\<rparr>"

text \<open>Line 86: \<^verbatim>\<open>memcpy(buffer1 + 2048, bytes, caplen)\<close>.\<close>

definition frame_mem :: "delivery \<Rightarrow> nat \<Rightarrow> u8" where
  "frame_mem d k =
     (if 2048 \<le> k \<and> k < 2048 + unat (clamp_caplen (caplen (cb_h d)))
      then cb_bytes d (k - 2048) else cb_buffer1 d k)"

definition frame_descriptor :: "delivery \<Rightarrow> pipeline_hdr" where
  "frame_descriptor d =
     \<lparr>pkt_pipeline_hdr = \<lparr>fb_hdr = frame_hdr (cb_h d), fb_mem = frame_mem d\<rparr>,
      pkt_pipeline_extra = cb_pkt0_extra d\<rparr>"

text \<open>Lines 96-100: the batch of one entry is stored in the master list of the pipeline.\<close>

definition process_one_batch :: "delivery \<Rightarrow> 'w machine \<Rightarrow> 'w machine" where
  "process_one_batch d s =
     pp_upd (\<lambda>p. p\<lparr>pkt_master_list :=
        \<lparr>pkt_list = [Some (frame_descriptor d)], pkt_extent = 1\<rparr>\<rparr>) s"

text \<open>
  Line 107: \<^verbatim>\<open>ppi->pi_stage && ppi->pi_stage->pp_process\<close>, the process operation of
  the instance at index \<open>i\<close>, if it has one.
\<close>

definition stage_process :: "'w stage_table \<Rightarrow> 'w machine \<Rightarrow> nat \<Rightarrow> 'w stage_op option" where
  "stage_process env s i =
     (case pi_stage (pkt_stages (pp s) i) of
        None \<Rightarrow> None
      | Some ps \<Rightarrow> pp_process (env ps))"

text \<open>Lines 105-109: the body of the loop, giving \<^verbatim>\<open>ret\<close> and the state.\<close>

definition stage_invoke :: "'w stage_table \<Rightarrow> 'w machine \<Rightarrow> nat \<Rightarrow> int \<times> 'w machine" where
  "stage_invoke env s i =
     (case stage_process env s i of
        None \<Rightarrow> (0, s)
      | Some f \<Rightarrow> f s i)"

text \<open>
  Lines 104-111: the loop, from index \<open>i\<close>. The bound \<^verbatim>\<open>pp->pkt_stage_next\<close> is read
  again at every turn, in the state the stages have left.
\<close>

function stage_loop :: "'w stage_table \<Rightarrow> nat \<Rightarrow> 'w machine \<Rightarrow> 'w machine" where
  "stage_loop env i s =
     (if i < pkt_stage_next (pp s) \<and> i < PKT_PIPELINE_MAX then
        (let r = stage_invoke env s i in
         if fst r \<noteq> 0 then snd r else stage_loop env (Suc i) (snd r))
      else s)"
  by pat_completeness auto
termination
  by (relation "measure (\<lambda>(env, i, s). PKT_PIPELINE_MAX - i)") auto

declare stage_loop.simps [simp del]

definition pktdump_process_one :: "'w stage_table \<Rightarrow> delivery \<Rightarrow> 'w machine \<Rightarrow> 'w machine" where
  "pktdump_process_one env d s = stage_loop env 0 (process_one_batch d s)"

subsection \<open>The same loop, recording the calls it makes\<close>

text \<open>
  To speak about which process operations are called, and in which order, the loop is
  run once more with a log: one entry per call of a process operation, with the index
  of the instance, the code returned and the state the call left.
\<close>

record 'w call =
  call_index :: nat
  call_ret :: int
  call_post :: "'w machine"

function stage_loop_traced ::
  "'w stage_table \<Rightarrow> nat \<Rightarrow> 'w machine \<Rightarrow> 'w call list \<times> 'w machine" where
  "stage_loop_traced env i s =
     (if i < pkt_stage_next (pp s) \<and> i < PKT_PIPELINE_MAX then
        (case stage_process env s i of
           None \<Rightarrow> stage_loop_traced env (Suc i) s
         | Some f \<Rightarrow>
             (let r = f s i;
                  c = \<lparr>call_index = i, call_ret = fst r, call_post = snd r\<rparr>
              in if fst r \<noteq> 0 then ([c], snd r)
                 else (let t = stage_loop_traced env (Suc i) (snd r)
                       in (c # fst t, snd t))))
      else ([], s))"
  by pat_completeness auto
termination
  by (relation "measure (\<lambda>(env, i, s). PKT_PIPELINE_MAX - i)") auto

declare stage_loop_traced.simps [simp del]

definition pktdump_process_one_traced ::
  "'w stage_table \<Rightarrow> delivery \<Rightarrow> 'w machine \<Rightarrow> 'w call list \<times> 'w machine" where
  "pktdump_process_one_traced env d s = stage_loop_traced env 0 (process_one_batch d s)"

text \<open>
  The state in which the loop reaches index \<open>k\<close>: the one left by the last call made
  at an index below \<open>k\<close>, or the starting state.
\<close>

fun state_at :: "'w machine \<Rightarrow> 'w call list \<Rightarrow> nat \<Rightarrow> 'w machine" where
  "state_at s [] k = s"
| "state_at s (c # cs) k = (if call_index c < k then state_at (call_post c) cs k else s)"

text \<open>The instance at \<open>k\<close> is registered and has a process operation, in state \<open>s\<close>.\<close>

definition has_process :: "'w stage_table \<Rightarrow> 'w machine \<Rightarrow> nat \<Rightarrow> bool" where
  "has_process env s k =
     (k < pkt_stage_next (pp s) \<and> k < PKT_PIPELINE_MAX \<and> stage_process env s k \<noteq> None)"

text \<open>The entry \<open>c\<close> is the call of the process operation at its index, made in state \<open>s\<close>.\<close>

definition is_call_from :: "'w stage_table \<Rightarrow> 'w machine \<Rightarrow> 'w call \<Rightarrow> bool" where
  "is_call_from env s c =
     (case stage_process env s (call_index c) of
        None \<Rightarrow> False
      | Some f \<Rightarrow> f s (call_index c) = (call_ret c, call_post c))"

text \<open>Every entry of the log is a call made in the state its predecessor left.\<close>

fun calls_chain :: "'w stage_table \<Rightarrow> 'w machine \<Rightarrow> 'w call list \<Rightarrow> bool" where
  "calls_chain env s [] = True"
| "calls_chain env s (c # cs) = (is_call_from env s c \<and> calls_chain env (call_post c) cs)"

text \<open>Every call but the last returned 0.\<close>

fun stops_at_failure :: "'w call list \<Rightarrow> bool" where
  "stops_at_failure [] = True"
| "stops_at_failure [c] = True"
| "stops_at_failure (c # cs) = (call_ret c = 0 \<and> stops_at_failure cs)"

subsection \<open>Registration (pkt_pipeline.c, pktdump_pipeline_add)\<close>

text \<open>
  The stage descriptor \<open>ps\<close> is dereferenced without a test, so it is a valid
  descriptor. The result is the address of the instance, here its index in
  \<^verbatim>\<open>pkt_stages\<close>, or NULL. The code returned by \<^verbatim>\<open>pp_init\<close> is dropped (line 70).
\<close>

definition pktdump_pipeline_add ::
  "'w stage_table \<Rightarrow> nat \<Rightarrow> 'w machine \<Rightarrow> nat option \<times> 'w machine" where
  "pktdump_pipeline_add env ps s =
     (if pkt_stage_next (pp s) \<ge> PKT_PIPELINE_MAX then (None, s)
      else
        (let stage_num = pkt_stage_next (pp s);
             s1 = pp_upd (\<lambda>p. p\<lparr>pkt_stage_next := pkt_stage_next p + 1\<rparr>) s;
             s2 = pp_upd (\<lambda>p. p\<lparr>pkt_stages := (pkt_stages p)
                    (stage_num := (pkt_stages p stage_num)
                       \<lparr>pi_stage_num := int stage_num, pi_stage := Some ps\<rparr>)\<rparr>) s1;
             s3 = (case pp_init (env ps) of
                     None \<Rightarrow> s2
                   | Some f \<Rightarrow> snd (f s2 stage_num))
         in (Some stage_num, s3)))"

text \<open>A sequence of registrations, as the option handling of \<^verbatim>\<open>main\<close> makes them.\<close>

fun register_all ::
  "'w stage_table \<Rightarrow> nat list \<Rightarrow> 'w machine \<Rightarrow> nat option list \<times> 'w machine" where
  "register_all env [] s = ([], s)"
| "register_all env (ps # pss) s =
     (let r = pktdump_pipeline_add env ps s;
          t = register_all env pss (snd r)
      in (fst r # fst t, snd t))"

text \<open>
  The contract of an init operation: it may store its private state
  (\<open>pi_stage_info\<close>) and touch the rest of the state, but it leaves the count of the
  registry and the stage and index of every instance alone.
\<close>

definition init_keeps_registry :: "'w stage_op \<Rightarrow> bool" where
  "init_keeps_registry f =
     (\<forall>s i. pkt_stage_next (pp (snd (f s i))) = pkt_stage_next (pp s) \<and>
        (\<forall>j. pi_stage (pkt_stages (pp (snd (f s i))) j) = pi_stage (pkt_stages (pp s) j) \<and>
             pi_stage_num (pkt_stages (pp (snd (f s i))) j) = pi_stage_num (pkt_stages (pp s) j)))"

definition inits_keep_registry :: "'w stage_table \<Rightarrow> nat list \<Rightarrow> bool" where
  "inits_keep_registry env pss =
     (\<forall>ps \<in> set pss. case pp_init (env ps) of None \<Rightarrow> True | Some f \<Rightarrow> init_keeps_registry f)"

text \<open>The indices handed out by the registrations that succeeded.\<close>

fun assigned :: "nat option list \<Rightarrow> nat list" where
  "assigned [] = []"
| "assigned (None # rs) = assigned rs"
| "assigned (Some i # rs) = i # assigned rs"

subsection \<open>What a stage sees of a packet (pkt_dumpc.c, lines 84-89)\<close>

text \<open>
  A stage reads the packet at \<^verbatim>\<open>(u_char *)hdr + hdr->tp_mac\<close>, for
  \<^verbatim>\<open>hdr->tp_snaplen\<close> bytes.
\<close>

definition exposed_bytes :: "pipeline_hdr \<Rightarrow> u8 list" where
  "exposed_bytes e =
     (let b = pkt_pipeline_hdr e; off = unat (tp_mac (fb_hdr b))
      in map (fb_mem b) [off ..< off + unat (tp_snaplen (fb_hdr b))])"

text \<open>The size of \<^verbatim>\<open>buffer1\<close> (line 73).\<close>

definition buffer1_size :: nat where
  "buffer1_size = 65536 + 2048"

subsection \<open>The capture loop (pkt_inputfile.c, pktdump_runpipeline)\<close>

text \<open>
  An open capture handle: the data-link type \<^verbatim>\<open>pcap_datalink\<close> reports, the frames
  one call of \<^verbatim>\<open>pcap_dispatch\<close> hands to the callback, and the value that call
  returns after them (a count, -1 for an error, -2 when the loop was broken). In
  \<^verbatim>\<open>pktdump_runpipeline\<close> below, \<open>rd\<close> is the handle \<^verbatim>\<open>pps->ps_pcap_reader\<close>
  points to and \<open>s\<close> holds the source \<^verbatim>\<open>pps\<close> itself.
\<close>

record pcap_t =
  pcap_linktype :: int
  pcap_frames :: "delivery list"
  pcap_result :: int

text \<open>
  Modelled from the spec: \<^verbatim>\<open>pcap_dispatch\<close> of libpcap, which is not part of the
  repository. Section 6 of the specification: it calls the callback once per captured
  frame, in order, and gives back frames processed or an error code. The callback
  returns nothing, so no code of a stage reaches it.
\<close>

fun deliver :: "'w stage_table \<Rightarrow> delivery list \<Rightarrow> 'w machine \<Rightarrow> 'w machine" where
  "deliver env [] s = s"
| "deliver env (d # ds) s = deliver env ds (pktdump_process_one env d s)"

definition pcap_dispatch :: "'w stage_table \<Rightarrow> pcap_t \<Rightarrow> 'w machine \<Rightarrow> int \<times> 'w machine" where
  "pcap_dispatch env rd s = (pcap_result rd, deliver env (pcap_frames rd) s)"

definition pktdump_runpipeline :: "'w stage_table \<Rightarrow> pcap_t \<Rightarrow> 'w machine \<Rightarrow> int \<times> 'w machine" where
  "pktdump_runpipeline env rd s =
     (let r = pcap_dispatch env rd s; result = fst r
      in (if result = - 2 then - 2 else if result = - 1 then - 1 else 0, snd r))"

text \<open>The same deliveries, with the log of each dispatch cycle.\<close>

fun deliver_traced ::
  "'w stage_table \<Rightarrow> delivery list \<Rightarrow> 'w machine \<Rightarrow> 'w call list list \<times> 'w machine" where
  "deliver_traced env [] s = ([], s)"
| "deliver_traced env (d # ds) s =
     (let r = pktdump_process_one_traced env d s;
          t = deliver_traced env ds (snd r)
      in (fst r # fst t, snd t))"

subsection \<open>Opening and closing a source (pkt_inputfile.c, pktdump.c)\<close>

text \<open>
  The process around the pipeline: the live allocations that hold a
  \<^verbatim>\<open>pkt_pipeline_source\<close>, the open capture handles, and the world of the stages.
  Using memory that is not there is a fault, and ends the run.
\<close>

datatype fault = NullDereference | InvalidFree | InvalidPointer

record 'w process =
  sources :: "nat \<rightharpoonup> pkt_pipeline_source"
  handles :: "nat \<rightharpoonup> pcap_t"
  globals :: 'w

text \<open>Line 48: the allocation after \<^verbatim>\<open>memset(pps, 0, sizeof(*pps))\<close>.\<close>

definition zero_source :: pkt_pipeline_source where
  "zero_source =
     \<lparr>ps_pipeline =
        \<lparr>pkt_dump = 0, pkt_datalink = 0,
         pkt_master_list = \<lparr>pkt_list = [], pkt_extent = 0\<rparr>,
         pkt_stage_next = 0,
         pkt_stages = (\<lambda>i. \<lparr>pi_stage = None, pi_stage_info = 0, pi_stage_num = 0\<rparr>)\<rparr>,
      ps_name = 0, ps_pcap_reader = None\<rparr>"

text \<open>
  \<^verbatim>\<open>pktdump_inputsource\<close>. What the libraries answer is given: \<open>malloc_result\<close> is
  the address \<^verbatim>\<open>malloc\<close> returns (NULL when memory is short); \<open>files\<close> says for
  each path what \<^verbatim>\<open>pcap_open_offline_with_tstamp_precision\<close> finds, the text it
  writes to \<^verbatim>\<open>ebuf\<close> or the capture; \<open>new_handle\<close> is the address of the handle it
  returns. The result is the pointer returned and the contents of \<^verbatim>\<open>ebuf\<close>.
\<close>

definition pktdump_inputsource ::
  "(string \<Rightarrow> string + pcap_t) \<Rightarrow> nat option \<Rightarrow> nat \<Rightarrow> string \<Rightarrow> string \<Rightarrow> 'w process
     \<Rightarrow> fault + (nat option \<times> string \<times> 'w process)" where
  "pktdump_inputsource files malloc_result new_handle file ebuf st =
     (case malloc_result of
        None \<Rightarrow> Inl NullDereference
      | Some a \<Rightarrow>
          (let st1 = st\<lparr>sources := (sources st)(a \<mapsto> zero_source)\<rparr> in
           case files file of
             Inl diagnostic \<Rightarrow>
               Inr (None, diagnostic, st1\<lparr>sources := (sources st1)(a := None)\<rparr>)
           | Inr rd \<Rightarrow>
               Inr (Some a, ebuf,
                    st1\<lparr>handles := (handles st1)(new_handle \<mapsto> rd),
                        sources := (sources st1)(a \<mapsto>
                          zero_source\<lparr>ps_pcap_reader := Some new_handle,
                            ps_pipeline := (ps_pipeline zero_source)
                              \<lparr>pkt_datalink := pcap_linktype rd\<rparr>\<rparr>)\<rparr>)))"

text \<open>
  \<^verbatim>\<open>pktdump_finish\<close>: \<^verbatim>\<open>free\<close> of a pointer that is not a live allocation is a
  fault.
\<close>

definition pktdump_finish :: "nat option \<Rightarrow> 'w process \<Rightarrow> fault + (int \<times> 'w process)" where
  "pktdump_finish pps st =
     (case pps of
        None \<Rightarrow> Inr (1, st)
      | Some a \<Rightarrow>
          (if a \<in> dom (sources st)
           then Inr (1, st\<lparr>sources := (sources st)(a := None)\<rparr>)
           else Inl InvalidFree))"

text \<open>
  The end of \<^verbatim>\<open>main\<close> (pktdump.c, lines 240-249), giving the status handed to
  \<^verbatim>\<open>exit_tcpdump\<close>. \<open>ret0\<close> is the indeterminate value of \<^verbatim>\<open>ret\<close>, which is
  read as it is when no source was opened.
\<close>

definition main_end ::
  "'w stage_table \<Rightarrow> nat option \<Rightarrow> int \<Rightarrow> 'w process \<Rightarrow> fault + (int \<times> 'w process)" where
  "main_end env pps ret0 st =
     (case pps of
        None \<Rightarrow> Inr (ret0, st)
      | Some a \<Rightarrow>
          (case sources st a of
             None \<Rightarrow> Inl InvalidPointer
           | Some source \<Rightarrow>
               (case ps_pcap_reader source of
                  None \<Rightarrow> Inl NullDereference
                | Some h \<Rightarrow>
                    (case handles st h of
                       None \<Rightarrow> Inl InvalidPointer
                     | Some rd \<Rightarrow>
                         (let r = pktdump_runpipeline env rd \<lparr>src = source, world = globals st\<rparr>;
                              st1 = st\<lparr>sources := (sources st)(a \<mapsto> src (snd r)),
                                      handles := (handles st)(h \<mapsto> rd\<lparr>pcap_frames := []\<rparr>),
                                      globals := world (snd r)\<rparr>
                          in pktdump_finish (Some a) st1)))))"

subsection \<open>Concrete pipelines\<close>

text \<open>A registry of four stages over a counter: the first has no process operation, the
  second counts, the third fails, the fourth resets the counter.\<close>

definition w_inst :: "nat option \<Rightarrow> int \<Rightarrow> pkt_pipeline_instance" where
  "w_inst ps n = \<lparr>pi_stage = ps, pi_stage_info = 0, pi_stage_num = n\<rparr>"

definition w_stage :: "nat stage_op option \<Rightarrow> nat pkt_pipeline_stage" where
  "w_stage f = \<lparr>pp_name = ''stage'', pp_init = None, pp_process = f\<rparr>"

definition w_env :: "nat stage_table" where
  "w_env ps =
     (if ps = 10 then w_stage None
      else if ps = 11 then w_stage (Some (\<lambda>s i. (0, s\<lparr>world := world s + 1\<rparr>)))
      else if ps = 12 then w_stage (Some (\<lambda>s i. (- 1, s\<lparr>world := world s + 100\<rparr>)))
      else w_stage (Some (\<lambda>s i. (0, s\<lparr>world := 0\<rparr>))))"

definition w_start :: "nat machine" where
  "w_start =
     \<lparr>src = \<lparr>ps_pipeline =
        \<lparr>pkt_dump = 0, pkt_datalink = 1,
         pkt_master_list = \<lparr>pkt_list = [], pkt_extent = 0\<rparr>,
         pkt_stage_next = 4,
         pkt_stages = (\<lambda>i. if i < 4 then w_inst (Some (10 + i)) (int i) else w_inst None 0)\<rparr>,
        ps_name = 0, ps_pcap_reader = Some 1\<rparr>,
      world = 0\<rparr>"

definition w_frame :: delivery where
  "w_frame =
     \<lparr>cb_h = \<lparr>ts_sec = 10, ts_usec = 500, caplen = 64, len = 128\<rparr>,
      cb_bytes = (\<lambda>k. word_of_nat k), cb_buffer1 = (\<lambda>k. 0), cb_pkt0_extra = (\<lambda>k. 0)\<rparr>"

text \<open>
  Eight stages whose init operation stores its private state and counts in the world;
  an empty registry.
\<close>

definition r_env :: "nat stage_table" where
  "r_env ps =
     \<lparr>pp_name = ''counting'',
      pp_init = Some (\<lambda>s i. (0, pp_upd (\<lambda>p. p\<lparr>pkt_stages := (pkt_stages p)
                 (i := (pkt_stages p i)\<lparr>pi_stage_info := 4096 + ps\<rparr>)\<rparr>)
                 (s\<lparr>world := world s + 1\<rparr>))),
      pp_process = None\<rparr>"

definition r_fresh :: "nat machine" where
  "r_fresh = \<lparr>src = zero_source, world = 0\<rparr>"

definition r_stages :: "nat list" where
  "r_stages = [20, 21, 22, 23, 24, 25, 26, 27]"

text \<open>A frame whose captured length is beyond the clamp.\<close>

definition big_frame :: delivery where
  "big_frame = w_frame\<lparr>cb_h := \<lparr>ts_sec = 10, ts_usec = 500, caplen = 70000, len = 70000\<rparr>\<rparr>"

text \<open>
  A stage whose init operation fails the way \<^verbatim>\<open>pkt_hexdumpc_init\<close> does when
  \<^verbatim>\<open>malloc\<close> returns NULL (pkt_dumpc.c, lines 56-59): \<open>pi_stage_info\<close> is NULL and
  the code is -2. Its process operation counts its calls.
\<close>

definition failing_init :: "nat stage_op" where
  "failing_init s i =
     (- 2, pp_upd (\<lambda>p. p\<lparr>pkt_stages := (pkt_stages p)
             (i := (pkt_stages p i)\<lparr>pi_stage_info := 0\<rparr>)\<rparr>) s)"

definition f_env :: "nat stage_table" where
  "f_env ps =
     \<lparr>pp_name = ''hexdumpc'', pp_init = Some failing_init,
      pp_process = Some (\<lambda>s i. (0, s\<lparr>world := world s + 1\<rparr>))\<rparr>"

text \<open>
  Three instances: the first counts, the second always fails, the third would reset
  the counter.
\<close>

definition v_start :: "nat machine" where
  "v_start = pp_upd (\<lambda>p. p\<lparr>pkt_stage_next := 3,
      pkt_stages := (\<lambda>i. if i < 3 then w_inst (Some (11 + i)) (int i) else w_inst None 0)\<rparr>) w_start"

text \<open>A capture of two frames, and the files of the machine.\<close>

definition o_rd :: pcap_t where
  "o_rd = \<lparr>pcap_linktype = 1, pcap_frames = [w_frame, big_frame], pcap_result = 2\<rparr>"

text \<open>
  A machine with one capture file, a process that holds nothing yet, and the process
  after that file has been opened as a source at address 100 with handle 7.
\<close>

definition o_files :: "string \<Rightarrow> string + pcap_t" where
  "o_files file = (if file = ''capture.pcap'' then Inr o_rd else Inl ''No such file or directory'')"

definition o_none :: "nat process" where
  "o_none = \<lparr>sources = Map.empty, handles = Map.empty, globals = 0\<rparr>"

definition o_source :: pkt_pipeline_source where
  "o_source = zero_source\<lparr>ps_pcap_reader := Some 7,
     ps_pipeline := (ps_pipeline zero_source)\<lparr>pkt_datalink := 1\<rparr>\<rparr>"

definition o_open :: "nat process" where
  "o_open = \<lparr>sources = [100 \<mapsto> o_source], handles = [7 \<mapsto> o_rd], globals = 0\<rparr>"

definition o_closed :: "nat process" where
  "o_closed = \<lparr>sources = Map.empty, handles = [7 \<mapsto> o_rd], globals = 0\<rparr>"

section \<open>Stage execution\<close>

lemma stage_loop_stop:
  "\<not> (i < pkt_stage_next (pp s) \<and> i < PKT_PIPELINE_MAX) \<Longrightarrow> stage_loop env i s = s"
  by (subst stage_loop.simps) (simp only: if_False)

lemma stage_loop_step:
  "i < pkt_stage_next (pp s) \<Longrightarrow> i < PKT_PIPELINE_MAX \<Longrightarrow>
   stage_loop env i s =
     (if fst (stage_invoke env s i) \<noteq> 0 then snd (stage_invoke env s i)
      else stage_loop env (Suc i) (snd (stage_invoke env s i)))"
  by (subst stage_loop.simps) (simp add: Let_def)

lemma stage_loop_traced_stop:
  "\<not> (i < pkt_stage_next (pp s) \<and> i < PKT_PIPELINE_MAX) \<Longrightarrow> stage_loop_traced env i s = ([], s)"
  by (subst stage_loop_traced.simps) (simp only: if_False)

lemma stage_loop_traced_skip:
  "i < pkt_stage_next (pp s) \<Longrightarrow> i < PKT_PIPELINE_MAX \<Longrightarrow> stage_process env s i = None \<Longrightarrow>
   stage_loop_traced env i s = stage_loop_traced env (Suc i) s"
  by (subst stage_loop_traced.simps) simp

lemma stage_loop_traced_fail:
  "i < pkt_stage_next (pp s) \<Longrightarrow> i < PKT_PIPELINE_MAX \<Longrightarrow> stage_process env s i = Some f \<Longrightarrow>
   fst (f s i) \<noteq> 0 \<Longrightarrow>
   stage_loop_traced env i s =
     ([\<lparr>call_index = i, call_ret = fst (f s i), call_post = snd (f s i)\<rparr>], snd (f s i))"
  by (subst stage_loop_traced.simps) (simp add: Let_def)

lemma stage_loop_traced_ok:
  "i < pkt_stage_next (pp s) \<Longrightarrow> i < PKT_PIPELINE_MAX \<Longrightarrow> stage_process env s i = Some f \<Longrightarrow>
   fst (f s i) = 0 \<Longrightarrow>
   stage_loop_traced env i s =
     (\<lparr>call_index = i, call_ret = 0, call_post = snd (f s i)\<rparr>
        # fst (stage_loop_traced env (Suc i) (snd (f s i))),
      snd (stage_loop_traced env (Suc i) (snd (f s i))))"
  by (subst stage_loop_traced.simps) (simp add: Let_def)

text \<open>The four ways one turn of the loop can go.\<close>

lemma stage_loop_traced_cases:
  obtains (stop) "\<not> (i < pkt_stage_next (pp s) \<and> i < PKT_PIPELINE_MAX)"
  | (skip) "i < pkt_stage_next (pp s)" "i < PKT_PIPELINE_MAX" "stage_process env s i = None"
  | (fail) f where "i < pkt_stage_next (pp s)" "i < PKT_PIPELINE_MAX"
      "stage_process env s i = Some f" "fst (f s i) \<noteq> 0"
  | (ok) f where "i < pkt_stage_next (pp s)" "i < PKT_PIPELINE_MAX"
      "stage_process env s i = Some f" "fst (f s i) = 0"
  by (cases "stage_process env s i") auto

lemma stage_loop_traced_state:
  "snd (stage_loop_traced env i s) = stage_loop env i s"
proof (induction env i s rule: stage_loop.induct)
  case (1 env i s)
  show ?case
  proof (cases rule: stage_loop_traced_cases [where i=i and s=s and env=env])
    case stop
    then show ?thesis
      by (simp add: stage_loop_stop stage_loop_traced_stop)
  next
    case skip
    with "1.IH" [of "(0, s)"] show ?thesis
      by (simp add: stage_loop_step stage_loop_traced_skip stage_invoke_def)
  next
    case (fail f)
    then show ?thesis
      by (simp add: stage_loop_step stage_loop_traced_fail stage_invoke_def)
  next
    case (ok f)
    with "1.IH" [of "f s i"] show ?thesis
      by (simp add: stage_loop_step stage_loop_traced_ok stage_invoke_def)
  qed
qed


text \<open>Induction along the turns of the loop.\<close>

lemma stage_loop_induct [case_names stop skip fail ok]:
  assumes stop: "\<And>i s. \<not> (i < pkt_stage_next (pp s) \<and> i < PKT_PIPELINE_MAX) \<Longrightarrow> P i s"
    and skip: "\<And>i s. i < pkt_stage_next (pp s) \<Longrightarrow> i < PKT_PIPELINE_MAX \<Longrightarrow>
        stage_process env s i = None \<Longrightarrow> P (Suc i) s \<Longrightarrow> P i s"
    and fail: "\<And>i s f. i < pkt_stage_next (pp s) \<Longrightarrow> i < PKT_PIPELINE_MAX \<Longrightarrow>
        stage_process env s i = Some f \<Longrightarrow> fst (f s i) \<noteq> 0 \<Longrightarrow> P i s"
    and ok: "\<And>i s f. i < pkt_stage_next (pp s) \<Longrightarrow> i < PKT_PIPELINE_MAX \<Longrightarrow>
        stage_process env s i = Some f \<Longrightarrow> fst (f s i) = 0 \<Longrightarrow>
        P (Suc i) (snd (f s i)) \<Longrightarrow> P i s"
  shows "P i s"
proof (induction "PKT_PIPELINE_MAX - i" arbitrary: i s)
  case 0
  then show ?case by (intro stop) simp
next
  case (Suc n i s)
  then have next_turn: "\<And>t. P (Suc i) t" by simp
  show ?case
  proof (cases rule: stage_loop_traced_cases [where i=i and s=s and env=env])
    case stop
    then show ?thesis by (rule assms(1))
  next
    case skip
    then show ?thesis by (rule assms(2) [OF _ _ _ next_turn])
  next
    case (fail f)
    then show ?thesis by (rule assms(3))
  next
    case (ok f)
    then show ?thesis by (rule assms(4) [OF _ _ _ _ next_turn])
  qed
qed

lemma traced_index_range:
  "\<forall>c \<in> set (fst (stage_loop_traced env i s)). i \<le> call_index c \<and> call_index c < PKT_PIPELINE_MAX"
proof (induction i s rule: stage_loop_induct [where env=env])
  case (stop i s)
  then show ?case by (simp add: stage_loop_traced_stop)
next
  case (skip i s)
  then show ?case by (auto simp: stage_loop_traced_skip)
next
  case (fail i s f)
  then show ?case by (simp add: stage_loop_traced_fail)
next
  case (ok i s f)
  then show ?case by (auto simp: stage_loop_traced_ok)
qed

lemma traced_sorted:
  "sorted_wrt (<) (map call_index (fst (stage_loop_traced env i s)))"
proof (induction i s rule: stage_loop_induct [where env=env])
  case (stop i s)
  then show ?case by (simp add: stage_loop_traced_stop)
next
  case (skip i s)
  then show ?case by (simp add: stage_loop_traced_skip)
next
  case (fail i s f)
  then show ?case by (simp add: stage_loop_traced_fail)
next
  case (ok i s f)
  have "\<forall>c \<in> set (fst (stage_loop_traced env (Suc i) (snd (f s i)))). i < call_index c"
    using traced_index_range [of env "Suc i" "snd (f s i)"] by auto
  with ok show ?case by (simp add: stage_loop_traced_ok)
qed

lemma traced_chain:
  "calls_chain env s (fst (stage_loop_traced env i s))"
proof (induction i s rule: stage_loop_induct [where env=env])
  case (stop i s)
  then show ?case by (simp add: stage_loop_traced_stop)
next
  case (skip i s)
  then show ?case by (simp add: stage_loop_traced_skip)
next
  case (fail i s f)
  then show ?case by (simp add: stage_loop_traced_fail is_call_from_def)
next
  case (ok i s f)
  moreover from ok have "f s i = (0, snd (f s i))" by (simp add: prod_eq_iff)
  ultimately show ?case by (simp add: stage_loop_traced_ok is_call_from_def)
qed

lemma traced_stops_at_failure:
  "stops_at_failure (fst (stage_loop_traced env i s))"
proof (induction i s rule: stage_loop_induct [where env=env])
  case (stop i s)
  then show ?case by (simp add: stage_loop_traced_stop)
next
  case (skip i s)
  then show ?case by (simp add: stage_loop_traced_skip)
next
  case (fail i s f)
  then show ?case by (simp add: stage_loop_traced_fail)
next
  case (ok i s f)
  then show ?case
    by (cases "fst (stage_loop_traced env (Suc i) (snd (f s i)))")
       (simp_all add: stage_loop_traced_ok)
qed

lemma state_at_before_first:
  "\<forall>c \<in> set cs. k \<le> call_index c \<Longrightarrow> state_at s cs k = s"
  by (cases cs) auto

lemma traced_final_state:
  "PKT_PIPELINE_MAX \<le> k \<Longrightarrow>
   snd (stage_loop_traced env i s) = state_at s (fst (stage_loop_traced env i s)) k"
proof (induction i s rule: stage_loop_induct [where env=env])
  case (stop i s)
  then show ?case by (simp add: stage_loop_traced_stop)
next
  case (skip i s)
  then show ?case by (simp add: stage_loop_traced_skip)
next
  case (fail i s f)
  then show ?case by (simp add: stage_loop_traced_fail)
next
  case (ok i s f)
  then show ?case by (simp add: stage_loop_traced_ok)
qed

lemma traced_complete:
  "i \<le> k \<Longrightarrow> has_process env (state_at s (fst (stage_loop_traced env i s)) k) k \<Longrightarrow>
   k \<in> call_index ` set (fst (stage_loop_traced env i s)) \<or>
   (\<exists>c \<in> set (fst (stage_loop_traced env i s)). call_index c < k \<and> call_ret c \<noteq> 0)"
proof (induction i s rule: stage_loop_induct [where env=env])
  case (stop i s)
  then show ?case by (auto simp: stage_loop_traced_stop has_process_def)
next
  case (skip i s)
  show ?case
  proof (cases "k = i")
    case True
    have "state_at s (fst (stage_loop_traced env (Suc i) s)) i = s"
      using traced_index_range [of env "Suc i" s] by (intro state_at_before_first) auto
    with skip True show ?thesis by (simp add: stage_loop_traced_skip has_process_def)
  next
    case False
    with skip show ?thesis by (simp add: stage_loop_traced_skip)
  qed
next
  case (fail i s f)
  then show ?case by (cases "k = i") (auto simp: stage_loop_traced_fail)
next
  case (ok i s f)
  show ?case
  proof (cases "k = i")
    case True
    with ok show ?thesis by (simp add: stage_loop_traced_ok)
  next
    case False
    with ok.prems have "Suc i \<le> k" "i < k" by auto
    with ok show ?thesis by (auto simp: stage_loop_traced_ok)
  qed
qed

lemma failure_is_last:
  "sorted_wrt (<) (map call_index cs) \<Longrightarrow> stops_at_failure cs \<Longrightarrow>
   c \<in> set cs \<Longrightarrow> call_ret c \<noteq> 0 \<Longrightarrow> c' \<in> set cs \<Longrightarrow> call_index c' \<le> call_index c"
proof (induction cs rule: stops_at_failure.induct)
  case 1
  then show ?case by simp
next
  case (2 c0)
  then show ?case by simp
next
  case (3 c0 c1 cs)
  then show ?case by auto
qed


lemma w_run:
  "map (\<lambda>c. (call_index c, call_ret c, world (call_post c)))
     (fst (pktdump_process_one_traced w_env w_frame w_start)) = [(1, 0, 1), (2, - 1, 101)]"
  by (simp add: pktdump_process_one_traced_def stage_loop_traced.simps process_one_batch_def
      pp_upd_def pp_def w_start_def w_env_def w_stage_def w_inst_def stage_process_def
      PKT_PIPELINE_MAX_def Let_def)


text \<open>
  C1. For every batch and every registry, with \<open>tr\<close> the calls of process operations
  that \<^verbatim>\<open>pktdump_process_one\<close> makes: the indices of \<open>tr\<close> increase strictly
  (registration order, each instance at most once) and lie below \<^verbatim>\<open>PKT_PIPELINE_MAX\<close>;
  each entry is the call of the process operation of its instance, made in the state the
  previous call left; an instance that is registered and has a process operation when the
  loop reaches it is called unless a call before it returned non-zero, so an instance
  without one is passed over and the loop goes on; after a call that returned non-zero no
  instance of a greater index is called, the failing call being the last; and the state
  at the end is the one the last call left, so what stages 0..k did persists.
\<close>

theorem process_one_stage_order:
  assumes "pktdump_process_one_traced env d s = (tr, s')"
  shows "sorted_wrt (<) (map call_index tr) \<and>
         (\<forall>c \<in> set tr. call_index c < PKT_PIPELINE_MAX) \<and>
         calls_chain env (process_one_batch d s) tr \<and>
         (\<forall>k. has_process env (state_at (process_one_batch d s) tr k) k \<longrightarrow>
              k \<in> call_index ` set tr \<or> (\<exists>c \<in> set tr. call_index c < k \<and> call_ret c \<noteq> 0)) \<and>
         (\<forall>c \<in> set tr. call_ret c \<noteq> 0 \<longrightarrow> (\<forall>c' \<in> set tr. call_index c' \<le> call_index c)) \<and>
         stops_at_failure tr \<and>
         s' = state_at (process_one_batch d s) tr PKT_PIPELINE_MAX \<and>
         s' = pktdump_process_one env d s"
proof -
  let ?s0 = "process_one_batch d s"
  from assms have tr: "tr = fst (stage_loop_traced env 0 ?s0)"
    and s': "s' = snd (stage_loop_traced env 0 ?s0)"
    by (simp_all add: pktdump_process_one_traced_def)
  have order: "sorted_wrt (<) (map call_index tr)"
    unfolding tr by (rule traced_sorted)
  have range: "\<forall>c \<in> set tr. call_index c < PKT_PIPELINE_MAX"
    unfolding tr using traced_index_range [of env 0 ?s0] by blast
  have chain: "calls_chain env ?s0 tr"
    unfolding tr by (rule traced_chain)
  have complete: "\<forall>k. has_process env (state_at ?s0 tr k) k \<longrightarrow>
      k \<in> call_index ` set tr \<or> (\<exists>c \<in> set tr. call_index c < k \<and> call_ret c \<noteq> 0)"
    unfolding tr using traced_complete [of 0 _ env ?s0] by blast
  have stops: "stops_at_failure tr"
    unfolding tr by (rule traced_stops_at_failure)
  have last: "\<forall>c \<in> set tr. call_ret c \<noteq> 0 \<longrightarrow> (\<forall>c' \<in> set tr. call_index c' \<le> call_index c)"
    using failure_is_last [OF order stops] by blast
  have final: "s' = state_at ?s0 tr PKT_PIPELINE_MAX"
    unfolding tr s' by (rule traced_final_state) simp
  have plain: "s' = pktdump_process_one env d s"
    unfolding s' by (simp add: stage_loop_traced_state pktdump_process_one_def)
  from order range chain complete last stops final plain show ?thesis
    by blast
qed

theorem process_one_stage_order_witness:
  "map (\<lambda>c. (call_index c, call_ret c, world (call_post c)))
     (fst (pktdump_process_one_traced w_env w_frame w_start)) = [(1, 0, 1), (2, - 1, 101)] \<and>
   sorted_wrt (<) (map call_index (fst (pktdump_process_one_traced w_env w_frame w_start))) \<and>
   stops_at_failure (fst (pktdump_process_one_traced w_env w_frame w_start)) \<and>
   calls_chain w_env (process_one_batch w_frame w_start)
     (fst (pktdump_process_one_traced w_env w_frame w_start)) \<and>
   has_process w_env (process_one_batch w_frame w_start) 3 \<and>
   \<not> has_process w_env (process_one_batch w_frame w_start) 0 \<and>
   snd (pktdump_process_one_traced w_env w_frame w_start) = pktdump_process_one w_env w_frame w_start \<and>
   world (pktdump_process_one w_env w_frame w_start) = 101"
proof -
  let ?run = "pktdump_process_one_traced w_env w_frame w_start"
  have run: "?run = (fst ?run, snd ?run)"
    by simp
  note order = process_one_stage_order [OF run]
  have final: "world (snd ?run) = 101"
    by (simp add: pktdump_process_one_traced_def stage_loop_traced.simps process_one_batch_def
        pp_upd_def pp_def w_start_def w_env_def w_stage_def w_inst_def stage_process_def
        PKT_PIPELINE_MAX_def Let_def)
  have third: "has_process w_env (process_one_batch w_frame w_start) 3"
    and first: "\<not> has_process w_env (process_one_batch w_frame w_start) 0"
    by (simp_all add: has_process_def process_one_batch_def pp_upd_def pp_def w_start_def
        w_env_def w_stage_def w_inst_def stage_process_def PKT_PIPELINE_MAX_def)
  from order have sorted: "sorted_wrt (<) (map call_index (fst ?run))"
    and stops: "stops_at_failure (fst ?run)"
    and chain: "calls_chain w_env (process_one_batch w_frame w_start) (fst ?run)"
    and plain: "snd ?run = pktdump_process_one w_env w_frame w_start"
    by blast+
  from final plain have counted: "world (pktdump_process_one w_env w_frame w_start) = 101"
    by simp
  show ?thesis
    by (intro conjI w_run sorted stops chain third first plain counted)
qed

section \<open>Registration\<close>

lemma add_full:
  "PKT_PIPELINE_MAX \<le> pkt_stage_next (pp s) \<Longrightarrow> pktdump_pipeline_add env ps s = (None, s)"
  by (simp add: pktdump_pipeline_add_def)

lemma add_index:
  "pkt_stage_next (pp s) < PKT_PIPELINE_MAX \<Longrightarrow>
   fst (pktdump_pipeline_add env ps s) = Some (pkt_stage_next (pp s))"
  by (simp add: pktdump_pipeline_add_def Let_def)

lemma add_registry:
  assumes room: "pkt_stage_next (pp s) < PKT_PIPELINE_MAX"
    and init: "inits_keep_registry env [ps]"
  shows "pkt_stage_next (pp (snd (pktdump_pipeline_add env ps s))) = Suc (pkt_stage_next (pp s))"
    and "pi_stage (pkt_stages (pp (snd (pktdump_pipeline_add env ps s))) j) =
           (if j = pkt_stage_next (pp s) then Some ps else pi_stage (pkt_stages (pp s) j))"
    and "pi_stage_num (pkt_stages (pp (snd (pktdump_pipeline_add env ps s))) j) =
           (if j = pkt_stage_next (pp s) then int (pkt_stage_next (pp s))
            else pi_stage_num (pkt_stages (pp s) j))"
  using assms
  by (auto simp: pktdump_pipeline_add_def Let_def inits_keep_registry_def init_keeps_registry_def
      pp_upd_def pp_def split: option.splits)

lemma full_all_none:
  "PKT_PIPELINE_MAX \<le> c \<Longrightarrow>
   map (\<lambda>i. if i < PKT_PIPELINE_MAX then Some i else None) [c ..< c + n] = replicate n None"
  by (simp add: list_eq_iff_nth_eq)

lemma register_all_results:
  "inits_keep_registry env pss \<Longrightarrow>
   fst (register_all env pss s) =
     map (\<lambda>i. if i < PKT_PIPELINE_MAX then Some i else None)
       [pkt_stage_next (pp s) ..< pkt_stage_next (pp s) + length pss]"
proof (induction pss arbitrary: s)
  case Nil
  then show ?case by simp
next
  case (Cons ps pss)
  then have one: "inits_keep_registry env [ps]" and rest: "inits_keep_registry env pss"
    by (simp_all add: inits_keep_registry_def)
  let ?c = "pkt_stage_next (pp s)"
  have upt: "[?c ..< ?c + length (ps # pss)] = ?c # [Suc ?c ..< Suc ?c + length pss]"
    by (subst upt_rec) simp
  show ?case
  proof (cases "?c < PKT_PIPELINE_MAX")
    case False
    then have "pktdump_pipeline_add env ps s = (None, s)"
      by (simp add: add_full)
    moreover from False have "PKT_PIPELINE_MAX \<le> ?c" "PKT_PIPELINE_MAX \<le> Suc ?c"
      by simp_all
    ultimately show ?thesis
      using Cons.IH [OF rest, of s] False
      unfolding upt by (simp only: register_all.simps Let_def fst_conv snd_conv list.map
          full_all_none if_False)
  next
    case True
    let ?r = "pktdump_pipeline_add env ps s"
    have idx: "fst ?r = Some ?c"
      using True by (rule add_index)
    have cnt: "pkt_stage_next (pp (snd ?r)) = Suc ?c"
      using True one by (rule add_registry(1))
    show ?thesis
      using Cons.IH [OF rest, of "snd ?r"] True
      unfolding upt by (simp only: register_all.simps Let_def fst_conv snd_conv list.map
          idx cnt if_True)
  qed
qed

lemma register_all_count:
  "inits_keep_registry env pss \<Longrightarrow>
   pkt_stage_next (pp s) + length pss \<le> PKT_PIPELINE_MAX \<Longrightarrow>
   pkt_stage_next (pp (snd (register_all env pss s))) = pkt_stage_next (pp s) + length pss"
proof (induction pss arbitrary: s)
  case Nil
  then show ?case by simp
next
  case (Cons ps pss)
  then have one: "inits_keep_registry env [ps]" and rest: "inits_keep_registry env pss"
    by (simp_all add: inits_keep_registry_def)
  from Cons.prems have room: "pkt_stage_next (pp s) < PKT_PIPELINE_MAX"
    by simp
  have cnt: "pkt_stage_next (pp (snd (pktdump_pipeline_add env ps s))) = Suc (pkt_stage_next (pp s))"
    using room one by (rule add_registry(1))
  with Cons.prems Cons.IH [OF rest, of "snd (pktdump_pipeline_add env ps s)"] show ?case
    by (simp add: Let_def)
qed

text \<open>The instances after a run of registrations that all fit.\<close>

lemma register_all_instances:
  "inits_keep_registry env pss \<Longrightarrow>
   pkt_stage_next (pp s) + length pss \<le> PKT_PIPELINE_MAX \<Longrightarrow>
   pi_stage (pkt_stages (pp (snd (register_all env pss s))) j) =
     (if pkt_stage_next (pp s) \<le> j \<and> j < pkt_stage_next (pp s) + length pss
      then Some (pss ! (j - pkt_stage_next (pp s))) else pi_stage (pkt_stages (pp s) j)) \<and>
   pi_stage_num (pkt_stages (pp (snd (register_all env pss s))) j) =
     (if pkt_stage_next (pp s) \<le> j \<and> j < pkt_stage_next (pp s) + length pss
      then int j else pi_stage_num (pkt_stages (pp s) j))"
proof (induction pss arbitrary: s)
  case Nil
  then show ?case by auto
next
  case (Cons ps pss)
  then have one: "inits_keep_registry env [ps]" and rest: "inits_keep_registry env pss"
    by (simp_all add: inits_keep_registry_def)
  from Cons.prems have room: "pkt_stage_next (pp s) < PKT_PIPELINE_MAX"
    by simp
  let ?s1 = "snd (pktdump_pipeline_add env ps s)"
  note reg = add_registry [OF room one]
  from Cons.prems reg(1) have fits: "pkt_stage_next (pp ?s1) + length pss \<le> PKT_PIPELINE_MAX"
    by simp
  from Cons.IH [OF rest fits] show ?case
    by (auto simp: Let_def reg nth_Cons' Suc_diff_le)
qed

lemma assigned_all_some: "assigned (map Some xs) = xs"
  by (induction xs) simp_all

lemma assigned_mixed:
  "assigned (map (\<lambda>i. if i < m then Some i else None) [c ..< c + n]) = [c ..< min (c + n) m]"
proof (induction n arbitrary: c)
  case 0
  then show ?case by simp
next
  case (Suc n)
  have "[c ..< c + Suc n] = c # [Suc c ..< Suc c + n]"
    by (subst upt_rec) simp
  with Suc [of "Suc c"] show ?case
    by (auto simp: upt_conv_Cons)
qed

text \<open>
  C2. Starting from an empty registry, with init operations that keep to their contract,
  a sequence of at most \<^verbatim>\<open>PKT_PIPELINE_MAX\<close> registrations is given the indices
  0, 1, ... in the order of registration, and the instance at each index holds its stage
  and its own index. Whatever the length of the sequence and the starting count, the
  indices handed out are all different. Once \<^verbatim>\<open>PKT_PIPELINE_MAX\<close> stages are
  registered, one more registration returns NULL and the state, so the count and every
  instance, is what it was before the call.
\<close>

theorem registration_indices:
  "(inits_keep_registry env pss \<and> pkt_stage_next (pp s) = 0 \<and> length pss \<le> PKT_PIPELINE_MAX \<longrightarrow>
      fst (register_all env pss s) = map Some [0 ..< length pss] \<and>
      pkt_stage_next (pp (snd (register_all env pss s))) = length pss \<and>
      (\<forall>j < length pss.
         pi_stage (pkt_stages (pp (snd (register_all env pss s))) j) = Some (pss ! j) \<and>
         pi_stage_num (pkt_stages (pp (snd (register_all env pss s))) j) = int j)) \<and>
   (inits_keep_registry env pss \<longrightarrow> distinct (assigned (fst (register_all env pss s)))) \<and>
   (inits_keep_registry env pss \<and> pkt_stage_next (pp s) = 0 \<and> length pss = PKT_PIPELINE_MAX \<longrightarrow>
      pktdump_pipeline_add env ps (snd (register_all env pss s)) = (None, snd (register_all env pss s))) \<and>
   (PKT_PIPELINE_MAX \<le> pkt_stage_next (pp s) \<longrightarrow> pktdump_pipeline_add env ps s = (None, s))"
proof (intro conjI impI)
  assume a: "inits_keep_registry env pss \<and> pkt_stage_next (pp s) = 0 \<and> length pss \<le> PKT_PIPELINE_MAX"
  then have "fst (register_all env pss s) =
      map (\<lambda>i. if i < PKT_PIPELINE_MAX then Some i else None) [0 ..< length pss]"
    using register_all_results [of env pss s] by simp
  also from a have "\<dots> = map Some [0 ..< length pss]"
    by (intro map_cong) auto
  finally show "fst (register_all env pss s) = map Some [0 ..< length pss]" .
  from a show "pkt_stage_next (pp (snd (register_all env pss s))) = length pss"
    using register_all_count [of env pss s] by simp
  from a show "\<forall>j < length pss.
         pi_stage (pkt_stages (pp (snd (register_all env pss s))) j) = Some (pss ! j) \<and>
         pi_stage_num (pkt_stages (pp (snd (register_all env pss s))) j) = int j"
    using register_all_instances [of env pss s] by simp
next
  assume "inits_keep_registry env pss"
  then show "distinct (assigned (fst (register_all env pss s)))"
    by (simp add: register_all_results assigned_mixed)
next
  assume a: "inits_keep_registry env pss \<and> pkt_stage_next (pp s) = 0 \<and> length pss = PKT_PIPELINE_MAX"
  then have "pkt_stage_next (pp (snd (register_all env pss s))) = PKT_PIPELINE_MAX"
    using register_all_count [of env pss s] by simp
  then show "pktdump_pipeline_add env ps (snd (register_all env pss s)) = (None, snd (register_all env pss s))"
    by (simp add: add_full)
next
  assume "PKT_PIPELINE_MAX \<le> pkt_stage_next (pp s)"
  then show "pktdump_pipeline_add env ps s = (None, s)"
    by (rule add_full)
qed

lemma r_env_inits: "inits_keep_registry r_env pss"
  by (simp add: inits_keep_registry_def init_keeps_registry_def r_env_def pp_upd_def pp_def)

theorem registration_indices_witness:
  "inits_keep_registry r_env r_stages \<and>
   pkt_stage_next (pp r_fresh) = 0 \<and>
   length r_stages = PKT_PIPELINE_MAX \<and>
   fst (register_all r_env r_stages r_fresh) = map Some [0 ..< length r_stages] \<and>
   pkt_stage_next (pp (snd (register_all r_env r_stages r_fresh))) = length r_stages \<and>
   distinct (assigned (fst (register_all r_env r_stages r_fresh))) \<and>
   pktdump_pipeline_add r_env 28 (snd (register_all r_env r_stages r_fresh))
     = (None, snd (register_all r_env r_stages r_fresh))"
proof -
  have fresh: "pkt_stage_next (pp r_fresh) = 0"
    by (simp add: r_fresh_def zero_source_def pp_def)
  have full: "length r_stages = PKT_PIPELINE_MAX"
    by (simp add: r_stages_def PKT_PIPELINE_MAX_def)
  from full have fits: "length r_stages \<le> PKT_PIPELINE_MAX"
    by simp
  note inits = r_env_inits [of r_stages]
  from registration_indices [of r_env r_stages r_fresh 28] inits fresh full fits
  have "fst (register_all r_env r_stages r_fresh) = map Some [0 ..< length r_stages]"
    and "pkt_stage_next (pp (snd (register_all r_env r_stages r_fresh))) = length r_stages"
    and "distinct (assigned (fst (register_all r_env r_stages r_fresh)))"
    and "pktdump_pipeline_add r_env 28 (snd (register_all r_env r_stages r_fresh))
           = (None, snd (register_all r_env r_stages r_fresh))"
    by blast+
  with inits fresh full show ?thesis
    by (intro conjI)
qed

text \<open>The init operations ran: the private state is stored and the world counted them.\<close>

lemma r_eval:
  "pi_stage_info (pkt_stages (pp (snd (register_all r_env [20, 21] r_fresh))) 1) = 4096 + 21 \<and>
   world (snd (register_all r_env [20, 21] r_fresh)) = 2"
  by (simp add: r_env_def r_fresh_def zero_source_def pktdump_pipeline_add_def Let_def
      pp_def pp_upd_def PKT_PIPELINE_MAX_def)

section \<open>Descriptors\<close>

lemma clamp_caplen_unat: "unat (clamp_caplen c) = min (unat c) 65536"
proof (cases "c > 65536")
  case True
  then have "65536 < unat c"
    by (simp add: word_less_nat_alt)
  with True show ?thesis
    by (simp add: clamp_caplen_def)
next
  case False
  then have "unat c \<le> 65536"
    by (simp add: word_less_nat_alt)
  with False show ?thesis
    by (simp add: clamp_caplen_def)
qed

lemma exposed_bytes_frame:
  "exposed_bytes (frame_descriptor d) =
     map (cb_bytes d) [0 ..< min (unat (caplen (cb_h d))) 65536]"
  by (simp add: exposed_bytes_def frame_descriptor_def frame_hdr_def frame_mem_def
      clamp_caplen_unat Let_def list_eq_iff_nth_eq)

lemma exposed_bytes_length:
  "length (exposed_bytes (frame_descriptor d)) = min (unat (caplen (cb_h d))) 65536"
  by (simp only: exposed_bytes_frame length_map length_upt diff_zero)

lemma batch_of_frame:
  "pkt_master_list (pp (process_one_batch d s)) =
     \<lparr>pkt_list = [Some (frame_descriptor d)], pkt_extent = 1\<rparr>"
  by (simp add: process_one_batch_def pp_upd_def pp_def)

lemma word_of_int_in_range:
  "0 \<le> v \<Longrightarrow> v < 2 ^ 32 \<Longrightarrow> uint (word_of_int v :: u32) = v"
  by (simp add: uint_word_of_int take_bit_int_eq_self)

text \<open>
  C6, as the code has it. The descriptor of every captured frame takes the original
  length unchanged, the captured length cut down to 65536 at most, the two parts of the
  timestamp reduced to 32 bits (so unchanged when they fit), and the fixed payload
  offset 2048; a stage reads exactly the first \<open>min caplen 65536\<close> bytes of the frame,
  which lie at offsets 2048 and up of the buffer.
\<close>

theorem descriptor_fields:
  "pkt_master_list (pp (process_one_batch d s)) =
     \<lparr>pkt_list = [Some (frame_descriptor d)], pkt_extent = 1\<rparr> \<and>
   tp_len (fb_hdr (pkt_pipeline_hdr (frame_descriptor d))) = len (cb_h d) \<and>
   unat (tp_snaplen (fb_hdr (pkt_pipeline_hdr (frame_descriptor d)))) =
     min (unat (caplen (cb_h d))) 65536 \<and>
   (caplen (cb_h d) \<le> 65536 \<longrightarrow>
      tp_snaplen (fb_hdr (pkt_pipeline_hdr (frame_descriptor d))) = caplen (cb_h d)) \<and>
   tp_mac (fb_hdr (pkt_pipeline_hdr (frame_descriptor d))) = 2048 \<and>
   tp_sec (fb_hdr (pkt_pipeline_hdr (frame_descriptor d))) = word_of_int (ts_sec (cb_h d)) \<and>
   tp_nsec (fb_hdr (pkt_pipeline_hdr (frame_descriptor d))) = word_of_int (ts_usec (cb_h d)) \<and>
   (0 \<le> ts_sec (cb_h d) \<and> ts_sec (cb_h d) < 2 ^ 32 \<longrightarrow>
      uint (tp_sec (fb_hdr (pkt_pipeline_hdr (frame_descriptor d)))) = ts_sec (cb_h d)) \<and>
   (0 \<le> ts_usec (cb_h d) \<and> ts_usec (cb_h d) < 2 ^ 32 \<longrightarrow>
      uint (tp_nsec (fb_hdr (pkt_pipeline_hdr (frame_descriptor d)))) = ts_usec (cb_h d)) \<and>
   exposed_bytes (frame_descriptor d) =
     map (\<lambda>k. fb_mem (pkt_pipeline_hdr (frame_descriptor d)) (2048 + k))
       [0 ..< min (unat (caplen (cb_h d))) 65536] \<and>
   exposed_bytes (frame_descriptor d) =
     map (cb_bytes d) [0 ..< min (unat (caplen (cb_h d))) 65536]"
proof -
  have hdr: "fb_hdr (pkt_pipeline_hdr (frame_descriptor d)) = frame_hdr (cb_h d)"
    by (simp add: frame_descriptor_def)
  have small: "caplen (cb_h d) \<le> 65536 \<longrightarrow> clamp_caplen (caplen (cb_h d)) = caplen (cb_h d)"
    by (auto simp: clamp_caplen_def)
  have range: "exposed_bytes (frame_descriptor d) =
     map (\<lambda>k. fb_mem (pkt_pipeline_hdr (frame_descriptor d)) (2048 + k))
       [0 ..< min (unat (caplen (cb_h d))) 65536]"
    by (simp add: exposed_bytes_def frame_descriptor_def frame_hdr_def
      clamp_caplen_unat Let_def list_eq_iff_nth_eq)
  from small range show ?thesis
    unfolding hdr
    by (simp add: batch_of_frame frame_hdr_def clamp_caplen_unat word_of_int_in_range
        exposed_bytes_frame)
qed

theorem descriptor_fields_witness:
  "cb_h w_frame = \<lparr>ts_sec = 10, ts_usec = 500, caplen = 64, len = 128\<rparr> \<and>
   tp_snaplen (fb_hdr (pkt_pipeline_hdr (frame_descriptor w_frame))) = 64 \<and>
   tp_len (fb_hdr (pkt_pipeline_hdr (frame_descriptor w_frame))) = 128 \<and>
   tp_mac (fb_hdr (pkt_pipeline_hdr (frame_descriptor w_frame))) = 2048 \<and>
   uint (tp_sec (fb_hdr (pkt_pipeline_hdr (frame_descriptor w_frame)))) = 10 \<and>
   uint (tp_nsec (fb_hdr (pkt_pipeline_hdr (frame_descriptor w_frame)))) = 500 \<and>
   length (exposed_bytes (frame_descriptor w_frame)) = 64 \<and>
   exposed_bytes (frame_descriptor w_frame) =
     map (\<lambda>k. fb_mem (pkt_pipeline_hdr (frame_descriptor w_frame)) (2048 + k)) [0 ..< 64] \<and>
   exposed_bytes (frame_descriptor w_frame) = map (cb_bytes w_frame) [0 ..< 64]"
proof -
  have h: "cb_h w_frame = \<lparr>ts_sec = 10, ts_usec = 500, caplen = 64, len = 128\<rparr>"
    by (simp add: w_frame_def)
  have n: "min (unat (caplen (cb_h w_frame))) 65536 = 64"
    by (simp add: h)
  have small: "caplen (cb_h w_frame) \<le> 65536"
    and sec: "0 \<le> ts_sec (cb_h w_frame) \<and> ts_sec (cb_h w_frame) < 2 ^ 32"
    and usec: "0 \<le> ts_usec (cb_h w_frame) \<and> ts_usec (cb_h w_frame) < 2 ^ 32"
    by (simp_all add: h)
  note fields = descriptor_fields [of w_frame w_start, unfolded n]
  from fields small have "tp_snaplen (fb_hdr (pkt_pipeline_hdr (frame_descriptor w_frame))) = caplen (cb_h w_frame)"
    by blast
  then have snaplen: "tp_snaplen (fb_hdr (pkt_pipeline_hdr (frame_descriptor w_frame))) = 64"
    by (simp add: h)
  from fields have "tp_len (fb_hdr (pkt_pipeline_hdr (frame_descriptor w_frame))) = len (cb_h w_frame)"
    by blast
  then have len: "tp_len (fb_hdr (pkt_pipeline_hdr (frame_descriptor w_frame))) = 128"
    by (simp add: h)
  from fields have mac: "tp_mac (fb_hdr (pkt_pipeline_hdr (frame_descriptor w_frame))) = 2048"
    by blast
  from fields sec have "uint (tp_sec (fb_hdr (pkt_pipeline_hdr (frame_descriptor w_frame)))) = ts_sec (cb_h w_frame)"
    by blast
  then have tsec: "uint (tp_sec (fb_hdr (pkt_pipeline_hdr (frame_descriptor w_frame)))) = 10"
    by (simp add: h)
  from fields usec have "uint (tp_nsec (fb_hdr (pkt_pipeline_hdr (frame_descriptor w_frame)))) = ts_usec (cb_h w_frame)"
    by blast
  then have tnsec: "uint (tp_nsec (fb_hdr (pkt_pipeline_hdr (frame_descriptor w_frame)))) = 500"
    by (simp add: h)
  from fields have range: "exposed_bytes (frame_descriptor w_frame) =
     map (\<lambda>k. fb_mem (pkt_pipeline_hdr (frame_descriptor w_frame)) (2048 + k)) [0 ..< 64]"
    and bytes: "exposed_bytes (frame_descriptor w_frame) = map (cb_bytes w_frame) [0 ..< 64]"
    by blast+
  have count: "length (exposed_bytes (frame_descriptor w_frame)) = 64"
    by (simp only: exposed_bytes_length n)
  show ?thesis
    by (intro conjI h snaplen len mac tsec tnsec count range bytes)
qed

theorem descriptor_fields_counterexample:
  "caplen (cb_h big_frame) = 70000 \<and>
   tp_snaplen (fb_hdr (pkt_pipeline_hdr (frame_descriptor big_frame))) = 65536 \<and>
   tp_snaplen (fb_hdr (pkt_pipeline_hdr (frame_descriptor big_frame))) \<noteq> caplen (cb_h big_frame) \<and>
   length (exposed_bytes (frame_descriptor big_frame)) = 65536"
  by (simp add: exposed_bytes_length)
     (simp add: big_frame_def frame_descriptor_def frame_hdr_def clamp_caplen_def)

text \<open>
  C7. The header built for any frame has offset 2048 and a captured length of at most
  65536, so the bytes a stage reads lie inside \<^verbatim>\<open>buffer1\<close>, whatever captured
  length libpcap reports; and this descriptor is the entry of the batch.
\<close>

theorem captured_length_bound:
  "pkt_list (pkt_master_list (pp (process_one_batch d s))) = [Some (frame_descriptor d)] \<and>
   unat (tp_mac (fb_hdr (pkt_pipeline_hdr (frame_descriptor d)))) = 2048 \<and>
   unat (tp_snaplen (fb_hdr (pkt_pipeline_hdr (frame_descriptor d)))) \<le> 65536 \<and>
   unat (tp_mac (fb_hdr (pkt_pipeline_hdr (frame_descriptor d)))) +
     unat (tp_snaplen (fb_hdr (pkt_pipeline_hdr (frame_descriptor d)))) \<le> buffer1_size"
  by (simp add: batch_of_frame frame_descriptor_def frame_hdr_def clamp_caplen_unat
      buffer1_size_def)

section \<open>A failing init operation\<close>

text \<open>
  C3, at a stage whose init operation returns -2: \<^verbatim>\<open>pktdump_pipeline_add\<close> still
  returns the instance (index 0, not NULL) and counts it, and the next frame runs the
  process operation of that stage.
\<close>

theorem failed_init_is_registered:
  "pp_init (f_env 30) = Some failing_init \<and>
   (\<forall>s i. fst (failing_init s i) = - 2) \<and>
   fst (pktdump_pipeline_add f_env 30 r_fresh) = Some 0 \<and>
   pkt_stage_next (pp (snd (pktdump_pipeline_add f_env 30 r_fresh))) = 1 \<and>
   pi_stage (pkt_stages (pp (snd (pktdump_pipeline_add f_env 30 r_fresh))) 0) = Some 30 \<and>
   map (\<lambda>c. (call_index c, call_ret c))
     (fst (pktdump_process_one_traced f_env w_frame (snd (pktdump_pipeline_add f_env 30 r_fresh))))
     = [(0, 0)] \<and>
   world (pktdump_process_one f_env w_frame (snd (pktdump_pipeline_add f_env 30 r_fresh))) = 1"
  by (simp add: f_env_def failing_init_def r_fresh_def zero_source_def pktdump_pipeline_add_def
      pktdump_process_one_traced_def pktdump_process_one_def stage_loop_traced.simps
      stage_loop.simps stage_invoke_def stage_process_def process_one_batch_def
      pp_upd_def pp_def PKT_PIPELINE_MAX_def Let_def)

section \<open>The capture loop\<close>

lemma deliver_traced_state: "snd (deliver_traced env ds s) = deliver env ds s"
  by (induction ds arbitrary: s)
     (simp_all add: Let_def pktdump_process_one_traced_def pktdump_process_one_def
       stage_loop_traced_state)

lemma deliver_traced_length: "length (fst (deliver_traced env ds s)) = length ds"
  by (induction ds arbitrary: s) (simp_all add: Let_def)

lemma process_one_traced_state:
  "snd (pktdump_process_one_traced env d s) = pktdump_process_one env d s"
  by (simp add: pktdump_process_one_traced_def pktdump_process_one_def stage_loop_traced_state)

text \<open>The cycle of frame \<open>n\<close> is a whole run of the callback, whatever the cycles before it returned.\<close>

lemma deliver_traced_nth:
  "n < length ds \<Longrightarrow>
   fst (deliver_traced env ds s) ! n =
     fst (pktdump_process_one_traced env (ds ! n) (deliver env (take n ds) s))"
proof (induction ds arbitrary: s n)
  case Nil
  then show ?case by simp
next
  case (Cons d ds)
  show ?case
  proof (cases n)
    case 0
    then show ?thesis by (simp add: Let_def)
  next
    case (Suc m)
    with Cons.prems have "m < length ds" by simp
    from Cons.IH [OF this] Suc show ?thesis
      by (simp add: Let_def process_one_traced_state)
  qed
qed

lemma first_stage_called:
  assumes "has_process env s 0"
  shows "fst (stage_loop_traced env 0 s) \<noteq> [] \<and>
         call_index (hd (fst (stage_loop_traced env 0 s))) = 0"
proof -
  from assms obtain f where turn: "0 < pkt_stage_next (pp s)" "0 < PKT_PIPELINE_MAX"
      and f: "stage_process env s 0 = Some f"
    by (auto simp: has_process_def)
  show ?thesis
  proof (cases "fst (f s 0) = 0")
    case True
    with turn f show ?thesis by (simp add: stage_loop_traced_ok)
  next
    case False
    with turn f show ?thesis by (simp add: stage_loop_traced_fail)
  qed
qed

text \<open>
  C5. For every sequence of frames handed to the callback: each frame gets its dispatch
  cycle (as many cycles as frames, whatever the stages returned); the cycle of frame
  \<open>n\<close> is a full run of \<^verbatim>\<open>pktdump_process_one\<close> on that frame, in the state the
  frames before it left; its batch is the one entry built from what the callback was
  handed for that frame, and from nothing an earlier cycle did; and
  its loop starts at index 0 again, so the instance at 0 is called first if it has a
  process operation. The value \<^verbatim>\<open>pktdump_runpipeline\<close> returns depends on what
  \<^verbatim>\<open>pcap_dispatch\<close> returns only.
\<close>

theorem batches_independent:
  "length (fst (deliver_traced env ds s)) = length ds \<and>
   snd (deliver_traced env ds s) = deliver env ds s \<and>
   (\<forall>n < length ds.
      fst (deliver_traced env ds s) ! n =
        fst (pktdump_process_one_traced env (ds ! n) (deliver env (take n ds) s)) \<and>
      pkt_master_list (pp (process_one_batch (ds ! n) (deliver env (take n ds) s))) =
        \<lparr>pkt_list = [Some (frame_descriptor (ds ! n))], pkt_extent = 1\<rparr> \<and>
      (has_process env (process_one_batch (ds ! n) (deliver env (take n ds) s)) 0 \<longrightarrow>
         fst (deliver_traced env ds s) ! n \<noteq> [] \<and>
         call_index (hd (fst (deliver_traced env ds s) ! n)) = 0)) \<and>
   snd (pktdump_runpipeline env rd s) = deliver env (pcap_frames rd) s \<and>
   fst (pktdump_runpipeline env rd s) =
     (if pcap_result rd = - 2 then - 2 else if pcap_result rd = - 1 then - 1 else 0)"
proof -
  have cycles: "\<forall>n < length ds.
      fst (deliver_traced env ds s) ! n =
        fst (pktdump_process_one_traced env (ds ! n) (deliver env (take n ds) s)) \<and>
      pkt_master_list (pp (process_one_batch (ds ! n) (deliver env (take n ds) s))) =
        \<lparr>pkt_list = [Some (frame_descriptor (ds ! n))], pkt_extent = 1\<rparr> \<and>
      (has_process env (process_one_batch (ds ! n) (deliver env (take n ds) s)) 0 \<longrightarrow>
         fst (deliver_traced env ds s) ! n \<noteq> [] \<and>
         call_index (hd (fst (deliver_traced env ds s) ! n)) = 0)"
  proof (intro allI impI conjI)
    fix n
    assume n: "n < length ds"
    let ?s0 = "process_one_batch (ds ! n) (deliver env (take n ds) s)"
    show nth: "fst (deliver_traced env ds s) ! n =
        fst (pktdump_process_one_traced env (ds ! n) (deliver env (take n ds) s))"
      using n by (rule deliver_traced_nth)
    show "pkt_master_list (pp ?s0) =
        \<lparr>pkt_list = [Some (frame_descriptor (ds ! n))], pkt_extent = 1\<rparr>"
      by (rule batch_of_frame)
    assume "has_process env ?s0 0"
    from first_stage_called [OF this]
    show "fst (deliver_traced env ds s) ! n \<noteq> []"
      and "call_index (hd (fst (deliver_traced env ds s) ! n)) = 0"
      by (simp_all add: nth pktdump_process_one_traced_def)
  qed
  have run: "snd (pktdump_runpipeline env rd s) = deliver env (pcap_frames rd) s"
    and ret: "fst (pktdump_runpipeline env rd s) =
     (if pcap_result rd = - 2 then - 2 else if pcap_result rd = - 1 then - 1 else 0)"
    by (simp_all add: pktdump_runpipeline_def pcap_dispatch_def Let_def)
  from cycles run ret show ?thesis
    by (simp only: deliver_traced_length deliver_traced_state simp_thms)
qed

lemma v_run:
  "map (map (\<lambda>c. (call_index c, call_ret c)))
     (fst (deliver_traced w_env [w_frame, big_frame] v_start))
     = [[(0, 0), (1, - 1)], [(0, 0), (1, - 1)]] \<and>
   world (snd (deliver_traced w_env [w_frame, big_frame] v_start)) = 202"
  by (simp add: pktdump_process_one_traced_def stage_loop_traced.simps process_one_batch_def
      pp_upd_def pp_def v_start_def w_start_def w_env_def w_stage_def w_inst_def stage_process_def
      PKT_PIPELINE_MAX_def Let_def)

lemma v_second_frame:
  "has_process w_env (process_one_batch big_frame (deliver w_env [w_frame] v_start)) 0"
  by (simp add: has_process_def pktdump_process_one_def stage_loop.simps stage_invoke_def
      process_one_batch_def pp_upd_def pp_def v_start_def w_start_def w_env_def w_stage_def
      w_inst_def stage_process_def PKT_PIPELINE_MAX_def Let_def)

theorem batches_independent_witness:
  "map (map (\<lambda>c. (call_index c, call_ret c)))
     (fst (deliver_traced w_env [w_frame, big_frame] v_start))
     = [[(0, 0), (1, - 1)], [(0, 0), (1, - 1)]] \<and>
   length (fst (deliver_traced w_env [w_frame, big_frame] v_start)) = 2 \<and>
   has_process w_env (process_one_batch big_frame (deliver w_env [w_frame] v_start)) 0 \<and>
   fst (deliver_traced w_env [w_frame, big_frame] v_start) ! 1 \<noteq> [] \<and>
   call_index (hd (fst (deliver_traced w_env [w_frame, big_frame] v_start) ! 1)) = 0 \<and>
   pkt_list (pkt_master_list (pp (process_one_batch big_frame (deliver w_env [w_frame] v_start))))
     = [Some (frame_descriptor big_frame)] \<and>
   world (deliver w_env [w_frame, big_frame] v_start) = 202 \<and>
   fst (pktdump_runpipeline w_env o_rd v_start) = 0"
proof -
  let ?ds = "[w_frame, big_frame]"
  note all = batches_independent [of w_env ?ds v_start o_rd]
  from all have count: "length (fst (deliver_traced w_env ?ds v_start)) = 2"
    by simp
  from all have state: "snd (deliver_traced w_env ?ds v_start) = deliver w_env ?ds v_start"
    by blast
  have second: "(1::nat) < length ?ds" "?ds ! 1 = big_frame" "take 1 ?ds = [w_frame]"
    by simp_all
  from all have "\<forall>n < length ?ds.
      pkt_master_list (pp (process_one_batch (?ds ! n) (deliver w_env (take n ?ds) v_start))) =
        \<lparr>pkt_list = [Some (frame_descriptor (?ds ! n))], pkt_extent = 1\<rparr> \<and>
      (has_process w_env (process_one_batch (?ds ! n) (deliver w_env (take n ?ds) v_start)) 0 \<longrightarrow>
         fst (deliver_traced w_env ?ds v_start) ! n \<noteq> [] \<and>
         call_index (hd (fst (deliver_traced w_env ?ds v_start) ! n)) = 0)"
    by blast
  from this [rule_format, OF second(1)]
  have batch: "pkt_master_list (pp (process_one_batch big_frame (deliver w_env [w_frame] v_start))) =
        \<lparr>pkt_list = [Some (frame_descriptor big_frame)], pkt_extent = 1\<rparr>"
    and again: "has_process w_env (process_one_batch big_frame (deliver w_env [w_frame] v_start)) 0 \<longrightarrow>
         fst (deliver_traced w_env ?ds v_start) ! 1 \<noteq> [] \<and>
         call_index (hd (fst (deliver_traced w_env ?ds v_start) ! 1)) = 0"
    unfolding second by blast+
  from again v_second_frame have called: "fst (deliver_traced w_env ?ds v_start) ! 1 \<noteq> []"
    and first: "call_index (hd (fst (deliver_traced w_env ?ds v_start) ! 1)) = 0"
    by blast+
  from batch have entry:
    "pkt_list (pkt_master_list (pp (process_one_batch big_frame (deliver w_env [w_frame] v_start))))
       = [Some (frame_descriptor big_frame)]"
    by simp
  from v_run state have counted: "world (deliver w_env ?ds v_start) = 202"
    by simp
  from all have "fst (pktdump_runpipeline w_env o_rd v_start) =
     (if pcap_result o_rd = - 2 then - 2 else if pcap_result o_rd = - 1 then - 1 else 0)"
    by blast
  then have ret: "fst (pktdump_runpipeline w_env o_rd v_start) = 0"
    by (simp add: o_rd_def)
  from v_run have log: "map (map (\<lambda>c. (call_index c, call_ret c)))
     (fst (deliver_traced w_env ?ds v_start)) = [[(0, 0), (1, - 1)], [(0, 0), (1, - 1)]]"
    by blast
  show ?thesis
    by (intro conjI log count v_second_frame called first entry counted ret)
qed

section \<open>Opening a source\<close>

text \<open>
  With the allocation made, \<^verbatim>\<open>pktdump_inputsource\<close> either returns the source with
  the data-link type of the capture recorded, or frees the allocation and returns NULL
  with the text of libpcap in the error buffer.
\<close>

lemma inputsource_opened:
  assumes "files file = Inr rd"
  shows "\<exists>st'. pktdump_inputsource files (Some a) h file ebuf st = Inr (Some a, ebuf, st') \<and>
           (\<exists>source. sources st' a = Some source \<and>
              pkt_datalink (ps_pipeline source) = pcap_linktype rd \<and>
              ps_pcap_reader source = Some h \<and>
              pkt_stage_next (ps_pipeline source) = 0) \<and>
           handles st' h = Some rd"
  using assms by (simp add: pktdump_inputsource_def zero_source_def Let_def)

lemma inputsource_open_failure:
  assumes "files file = Inl diagnostic"
  shows "pktdump_inputsource files (Some a) h file ebuf st =
           Inr (None, diagnostic, st\<lparr>sources := (sources st)(a := None)\<rparr>)"
  using assms by (simp add: pktdump_inputsource_def Let_def)

lemma o_opening:
  "pktdump_inputsource o_files (Some 100) 7 ''capture.pcap'' [] o_none = Inr (Some 100, [], o_open)"
  by (simp add: pktdump_inputsource_def o_files_def o_none_def o_open_def o_source_def o_rd_def
      Let_def)

text \<open>
  C9, when \<^verbatim>\<open>malloc\<close> returns NULL: the result is not a NULL source. The pointer is
  handed to \<^verbatim>\<open>memset\<close> untested (lines 47-48), and the run ends in a fault.
\<close>

theorem inputsource_without_memory:
  "pktdump_inputsource o_files None 7 ''capture.pcap'' [] o_none = Inl NullDereference"
  by (simp add: pktdump_inputsource_def)

section \<open>Closing a source\<close>

text \<open>
  C8, as the code has it. \<^verbatim>\<open>pktdump_finish\<close> with a NULL source changes nothing;
  with a live source it frees the allocation and nothing else: the capture handles and
  the rest of the process are what they were, so the handle of the source stays open.
\<close>

theorem finish_frees_allocation_only:
  "pktdump_finish None st = Inr (1, st) \<and>
   (a \<in> dom (sources st) \<longrightarrow>
      pktdump_finish (Some a) st = Inr (1, st\<lparr>sources := (sources st)(a := None)\<rparr>) \<and>
      a \<notin> dom (sources (st\<lparr>sources := (sources st)(a := None)\<rparr>)) \<and>
      handles (st\<lparr>sources := (sources st)(a := None)\<rparr>) = handles st \<and>
      globals (st\<lparr>sources := (sources st)(a := None)\<rparr>) = globals st)"
  by (simp add: pktdump_finish_def)

theorem finish_frees_allocation_only_witness:
  "100 \<in> dom (sources o_open) \<and>
   pktdump_finish None o_open = Inr (1, o_open) \<and>
   pktdump_finish (Some 100) o_open = Inr (1, o_closed) \<and>
   100 \<notin> dom (sources o_closed) \<and>
   handles o_closed = handles o_open"
proof -
  have live: "100 \<in> dom (sources o_open)"
    by (simp add: o_open_def)
  have closed: "o_open\<lparr>sources := (sources o_open)(100 := None)\<rparr> = o_closed"
    by (simp add: o_open_def o_closed_def)
  from finish_frees_allocation_only [of o_open 100] live show ?thesis
    unfolding closed by blast
qed

theorem finish_counterexample:
  "ps_pcap_reader o_source = Some 7 \<and>
   sources o_open 100 = Some o_source \<and>
   handles o_open 7 = Some o_rd \<and>
   pktdump_finish (Some 100) o_open = Inr (1, o_closed) \<and>
   handles o_closed 7 = Some o_rd \<and>
   pktdump_finish (Some 100) o_closed = Inl InvalidFree"
  by (simp add: pktdump_finish_def o_open_def o_closed_def o_source_def)

section \<open>The exit status\<close>

text \<open>
  C10. \<^verbatim>\<open>pktdump_finish\<close> returns 1 for a NULL source and for every live source,
  and never anything else; so \<^verbatim>\<open>main\<close>, which ends with the value of
  \<^verbatim>\<open>pktdump_finish\<close> as its status whenever a source was opened, exits with 1
  whatever \<^verbatim>\<open>pktdump_runpipeline\<close> returned.
\<close>

theorem finish_returns_one:
  "pktdump_finish None st = Inr (1, st) \<and>
   (a \<in> dom (sources st) \<longrightarrow> (\<exists>st'. pktdump_finish (Some a) st = Inr (1, st'))) \<and>
   (\<forall>r st'. pktdump_finish pps st = Inr (r, st') \<longrightarrow> r = 1) \<and>
   (sources st a = Some source \<and> ps_pcap_reader source = Some h \<and> handles st h = Some rd \<longrightarrow>
      (\<exists>st'. main_end env (Some a) ret0 st = Inr (1, st')))"
proof (intro conjI impI allI)
  show "pktdump_finish None st = Inr (1, st)"
    by (simp add: pktdump_finish_def)
  show "\<exists>st'. pktdump_finish (Some a) st = Inr (1, st')" if "a \<in> dom (sources st)"
    using that by (simp add: pktdump_finish_def)
  show "r = 1" if "pktdump_finish pps st = Inr (r, st')" for r st'
    using that by (auto simp: pktdump_finish_def split: option.splits if_splits)
  show "\<exists>st'. main_end env (Some a) ret0 st = Inr (1, st')"
    if "sources st a = Some source \<and> ps_pcap_reader source = Some h \<and> handles st h = Some rd"
    using that by (simp add: main_end_def pktdump_finish_def Let_def)
qed

theorem finish_returns_one_witness:
  "sources o_open 100 = Some o_source \<and>
   ps_pcap_reader o_source = Some 7 \<and>
   handles o_open 7 = Some o_rd \<and>
   fst (pktdump_runpipeline w_env o_rd \<lparr>src = o_source, world = globals o_open\<rparr>) = 0 \<and>
   pktdump_finish None o_open = Inr (1, o_open) \<and>
   (\<exists>st'. pktdump_finish (Some 100) o_open = Inr (1, st')) \<and>
   (\<exists>st'. main_end w_env (Some 100) 0 o_open = Inr (1, st'))"
proof -
  have live: "sources o_open 100 = Some o_source"
    and reader: "ps_pcap_reader o_source = Some 7"
    and handle: "handles o_open 7 = Some o_rd"
    by (simp_all add: o_open_def o_source_def)
  from live have dom: "100 \<in> dom (sources o_open)"
    by blast
  have ok: "fst (pktdump_runpipeline w_env o_rd \<lparr>src = o_source, world = globals o_open\<rparr>) = 0"
    by (simp add: pktdump_runpipeline_def pcap_dispatch_def o_rd_def Let_def)
  note one = finish_returns_one [of o_open 100 "Some 100" o_source 7 o_rd w_env 0]
  from one have none: "pktdump_finish None o_open = Inr (1, o_open)"
    by blast
  from one dom have some: "\<exists>st'. pktdump_finish (Some 100) o_open = Inr (1, st')"
    by blast
  from one live reader handle have exit: "\<exists>st'. main_end w_env (Some 100) 0 o_open = Inr (1, st')"
    by blast
  show ?thesis
    by (intro conjI live reader handle ok none some exit)
qed

end
